theory Spec2Isabelle
  imports Main "HOL-Library.AList"
begin

section \<open>Data model\<close>

text \<open>
  The engine keeps three JSON documents on disk: the user-record store
  (\<^verbatim>\<open>/etc/boxvps/data/users.json\<close>), the usage counters
  (\<^verbatim>\<open>/etc/boxvps/data/stats.json\<close>) and the proxy artifact
  (\<^verbatim>\<open>/usr/local/etc/xray/config.json\<close>). A Python \<^verbatim>\<open>dict\<close> keeps its
  keys in insertion order and \<^verbatim>\<open>json.load\<close>/\<^verbatim>\<open>json.dump\<close> preserve that order, so
  a dictionary keyed by username is an association list: \<^verbatim>\<open>d[k] = v\<close> is
  \<open>AList.update\<close> (replace in place, or append a new key at the end),
  \<^verbatim>\<open>del d[k]\<close> is \<open>AList.delete\<close>, \<^verbatim>\<open>d.items()\<close> is the list itself.
  The text that \<^verbatim>\<open>json.dump(_, indent=4)\<close> writes is a function of the ordered
  document, and \<^verbatim>\<open>json.load\<close> gives the document back, so a file is modelled by the
  document it holds.

  The clock (\<^verbatim>\<open>datetime.now().isoformat()\<close>) and the token generator
  (\<^verbatim>\<open>str(uuid.uuid4())\<close>) are inputs: every function takes the values it would read.
  Every \<^verbatim>\<open>subprocess.run\<close> call is recorded; none of them is given \<^verbatim>\<open>check=True\<close>, so
  the exit status of the command never raises. The failures that are modelled are
  the ones the code can meet on its own data: a file that is missing, a file that
  is not a complete JSON document, and a dictionary key that is missing. Writing a
  file and starting a command are taken to succeed, and \<^verbatim>\<open>logger.error\<close> is not
  modelled.
\<close>

text \<open>A dictionary key that may be missing: \<^verbatim>\<open>'uuid'\<close> and \<^verbatim>\<open>'banned_at'\<close> are
  not among the keys \<^verbatim>\<open>add_user\<close> always writes.\<close>

datatype 'a entry = NoKey | Key 'a

text \<open>The \<^verbatim>\<open>user_data\<close> dictionary of \<^verbatim>\<open>add_user\<close>. \<^verbatim>\<open>None\<close> values are
  \<open>None\<close>; \<open>banned_at = Key None\<close> is the key present with value \<^verbatim>\<open>None\<close>. The store
  starts empty and only \<^verbatim>\<open>add_user\<close> creates records, so every record has the eight
  keys written there.\<close>

record user =
  password :: string
  created_at :: string
  quota :: "int option"
  quota_used :: int
  banned :: bool
  locked :: bool
  last_login :: "string option"
  login_attempts :: int
  uuid :: "string entry"
  banned_at :: "string option entry"

type_synonym users = "(string \<times> user) list"

record traffic =
  upload :: int
  download :: int
  last_reset :: string

type_synonym stats = "(string \<times> traffic) list"

text \<open>A client entry of an inbound is a small dictionary, for example
  \<^verbatim>\<open>{'id': ..., 'alterId': 0}\<close>.\<close>

datatype jval = JStr string | JInt int

type_synonym client = "(string \<times> jval) list"

record inbound =
  port :: int
  protocol :: string
  clients :: "client list"
  network :: string
  path :: string

record xray_config =
  inbounds :: "inbound list"
  outbounds :: "string list"

text \<open>What a path holds: nothing, a text that is not a complete JSON document
  (\<^verbatim>\<open>json.load\<close> raises on it; a file just opened with mode \<^verbatim>\<open>'w'\<close> is empty),
  or a document.\<close>

datatype 'a file_state = Missing | Corrupt | Content 'a

text \<open>A \<^verbatim>\<open>subprocess.run\<close> call: its argument vector and what is fed to its
  standard input.\<close>

datatype command = Run "string list" "string option"

record world =
  users_file :: "users file_state"
  stats_file :: "stats file_state"
  xray_file :: "xray_config file_state"
  commands :: "command list"

datatype py_error = FileNotFoundError | JSONDecodeError | KeyError

text \<open>\<^verbatim>\<open>subprocess.run(argv)\<close> and \<^verbatim>\<open>subprocess.run(argv, input=...)\<close>. The executable is
  taken to be installed: where it is not, \<^verbatim>\<open>subprocess.run\<close> raises \<^verbatim>\<open>FileNotFoundError\<close>
  and the \<^verbatim>\<open>except Exception\<close> of the calling method returns \<^verbatim>\<open>False\<close> with everything
  written before the call left in place. That case is outside the model: where a
  statement below says that an operation succeeds, it does so under this
  assumption.\<close>

definition run :: "string list \<Rightarrow> world \<Rightarrow> world" where
  "run argv w = w\<lparr>commands := commands w @ [Run argv None]\<rparr>"

definition run_input :: "string list \<Rightarrow> string \<Rightarrow> world \<Rightarrow> world" where
  "run_input argv inp w = w\<lparr>commands := commands w @ [Run argv (Some inp)]\<rparr>"

definition has_key :: "'k \<Rightarrow> ('k \<times> 'v) list \<Rightarrow> bool" where
  "has_key k d = (k \<in> set (map fst d))"

section \<open>protocol\_manager.py\<close>

text \<open>The list comprehension of \<^verbatim>\<open>update_xray_users\<close>: it walks \<^verbatim>\<open>users.items()\<close>
  in order, skips banned users and reads \<^verbatim>\<open>users[username]['uuid']\<close> of every other
  one (the record of the same iteration, keys being unique), which raises
  \<^verbatim>\<open>KeyError\<close> when the record has no \<^verbatim>\<open>'uuid'\<close>. The argument \<open>mk\<close> builds the
  client dictionary from the token.\<close>

fun client_list :: "(string \<Rightarrow> client) \<Rightarrow> users \<Rightarrow> py_error + client list" where
  "client_list mk [] = Inr []"
| "client_list mk ((username, user_data) # rest) =
     (if \<not> banned user_data then
        (case uuid user_data of
           NoKey \<Rightarrow> Inl KeyError
         | Key u \<Rightarrow>
             (case client_list mk rest of
                Inl e \<Rightarrow> Inl e
              | Inr cs \<Rightarrow> Inr (mk u # cs)))
      else client_list mk rest)"

definition vmess_client :: "string \<Rightarrow> client" where
  "vmess_client u = [(''id'', JStr u), (''alterId'', JInt 0)]"

definition vless_client :: "string \<Rightarrow> client" where
  "vless_client u = [(''id'', JStr u)]"

definition trojan_client :: "string \<Rightarrow> client" where
  "trojan_client u = [(''password'', JStr u)]"

text \<open>One round of the loop \<^verbatim>\<open>for inbound in config['inbounds']\<close>.\<close>

definition update_inbound :: "users \<Rightarrow> inbound \<Rightarrow> py_error + inbound" where
  "update_inbound users ib =
     (if protocol ib = ''vmess'' then
        (case client_list vmess_client users of
           Inl e \<Rightarrow> Inl e | Inr cs \<Rightarrow> Inr (ib\<lparr>clients := cs\<rparr>))
      else if protocol ib = ''vless'' then
        (case client_list vless_client users of
           Inl e \<Rightarrow> Inl e | Inr cs \<Rightarrow> Inr (ib\<lparr>clients := cs\<rparr>))
      else if protocol ib = ''trojan'' then
        (case client_list trojan_client users of
           Inl e \<Rightarrow> Inl e | Inr cs \<Rightarrow> Inr (ib\<lparr>clients := cs\<rparr>))
      else Inr ib)"

fun update_inbounds :: "users \<Rightarrow> inbound list \<Rightarrow> py_error + inbound list" where
  "update_inbounds users [] = Inr []"
| "update_inbounds users (ib # ibs) =
     (case update_inbound users ib of
        Inl e \<Rightarrow> Inl e
      | Inr ib' \<Rightarrow>
          (case update_inbounds users ibs of
             Inl e \<Rightarrow> Inl e
           | Inr ibs' \<Rightarrow> Inr (ib' # ibs')))"

text \<open>The body of the \<^verbatim>\<open>try\<close> block of \<^verbatim>\<open>update_xray_users\<close>: read the artifact,
  rebuild the client lists in memory, write the artifact back, restart the
  service. An exception leaves the function before anything is written.\<close>

definition update_xray_users_body :: "users \<Rightarrow> world \<Rightarrow> py_error + world" where
  "update_xray_users_body users w =
     (case xray_file w of
        Missing \<Rightarrow> Inl FileNotFoundError
      | Corrupt \<Rightarrow> Inl JSONDecodeError
      | Content config \<Rightarrow>
          (case update_inbounds users (inbounds config) of
             Inl e \<Rightarrow> Inl e
           | Inr ibs \<Rightarrow>
               Inr (run [''systemctl'', ''restart'', ''xray'']
                      (w\<lparr>xray_file := Content (config\<lparr>inbounds := ibs\<rparr>)\<rparr>))))"

text \<open>\<^verbatim>\<open>except Exception\<close>: log and return \<^verbatim>\<open>False\<close>.\<close>

definition update_xray_users :: "users \<Rightarrow> world \<Rightarrow> bool \<times> world" where
  "update_xray_users users w =
     (case update_xray_users_body users w of
        Inl e \<Rightarrow> (False, w)
      | Inr w' \<Rightarrow> (True, w'))"

text \<open>\<^verbatim>\<open>protocols.get(name, {}).get('enabled', default)\<close>.\<close>

definition enabled :: "(string \<times> (string \<times> bool) list) list \<Rightarrow> string \<Rightarrow> bool \<Rightarrow> bool" where
  "enabled protocols name dflt =
     (case map_of protocols name of
        None \<Rightarrow> dflt
      | Some d \<Rightarrow> (case map_of d ''enabled'' of None \<Rightarrow> dflt | Some b \<Rightarrow> b))"

definition configure_xray ::
  "int \<Rightarrow> (string \<times> (string \<times> bool) list) list \<Rightarrow> world \<Rightarrow> bool \<times> world" where
  "configure_xray p protocols w =
     (let ibs = [];
          ibs = (if enabled protocols ''vmess'' True
                 then ibs @ [\<lparr>port = p, protocol = ''vmess'', clients = [],
                              network = ''ws'', path = ''/vmess''\<rparr>] else ibs);
          ibs = (if enabled protocols ''vless'' False
                 then ibs @ [\<lparr>port = p + 1, protocol = ''vless'', clients = [],
                              network = ''ws'', path = ''/vless''\<rparr>] else ibs);
          ibs = (if enabled protocols ''trojan'' False
                 then ibs @ [\<lparr>port = p + 2, protocol = ''trojan'', clients = [],
                              network = ''ws'', path = ''/trojan''\<rparr>] else ibs);
          config = \<lparr>inbounds = ibs, outbounds = [''freedom'']\<rparr>
      in (True, run [''systemctl'', ''restart'', ''xray'']
                  (w\<lparr>xray_file := Content config\<rparr>)))"

section \<open>monitoring\_manager.py\<close>

text \<open>\<^verbatim>\<open>_load_stats\<close> and \<^verbatim>\<open>_save_stats\<close> (the leading underscore of a private method is
  dropped in every name). A missing file reads as the empty dictionary; any other
  exception of \<^verbatim>\<open>json.load\<close> goes to the caller.\<close>

definition load_stats :: "world \<Rightarrow> py_error + stats" where
  "load_stats w =
     (case stats_file w of
        Missing \<Rightarrow> Inr []
      | Corrupt \<Rightarrow> Inl JSONDecodeError
      | Content s \<Rightarrow> Inr s)"

definition save_stats :: "stats \<Rightarrow> world \<Rightarrow> world" where
  "save_stats s w = w\<lparr>stats_file := Content s\<rparr>"

text \<open>\<open>now\<close> is the reading of \<^verbatim>\<open>datetime.now().isoformat()\<close>. \<^verbatim>\<open>get_user_traffic\<close>
  answers with zero counters for a user that has no entry, and with \<^verbatim>\<open>None\<close> when
  the counters cannot be read.\<close>

definition get_user_traffic :: "string \<Rightarrow> string \<Rightarrow> world \<Rightarrow> traffic option" where
  "get_user_traffic now username w =
     (case load_stats w of
        Inl e \<Rightarrow> None
      | Inr s \<Rightarrow>
          Some (case map_of s username of
                  None \<Rightarrow> \<lparr>upload = 0, download = 0, last_reset = now\<rparr>
                | Some t \<Rightarrow> t))"

definition update_user_traffic :: "string \<Rightarrow> string \<Rightarrow> int \<Rightarrow> int \<Rightarrow> world \<Rightarrow> bool \<times> world" where
  "update_user_traffic now username up down w =
     (case load_stats w of
        Inl e \<Rightarrow> (False, w)
      | Inr s \<Rightarrow>
          (let s = (if \<not> has_key username s
                    then AList.update username
                           \<lparr>upload = 0, download = 0, last_reset = now\<rparr> s
                    else s);
               s = AList.map_entry username (\<lambda>t. t\<lparr>upload := upload t + up\<rparr>) s;
               s = AList.map_entry username (\<lambda>t. t\<lparr>download := download t + down\<rparr>) s
           in (True, save_stats s w)))"

definition reset_user_traffic :: "string \<Rightarrow> string \<Rightarrow> world \<Rightarrow> bool \<times> world" where
  "reset_user_traffic now username w =
     (case load_stats w of
        Inl e \<Rightarrow> (False, w)
      | Inr s \<Rightarrow>
          (if has_key username s then
             (let s = AList.map_entry username (\<lambda>t. t\<lparr>upload := 0\<rparr>) s;
                  s = AList.map_entry username (\<lambda>t. t\<lparr>download := 0\<rparr>) s;
                  s = AList.map_entry username (\<lambda>t. t\<lparr>last_reset := now\<rparr>) s
              in (True, save_stats s w))
           else (True, w)))"

text \<open>\<^verbatim>\<open>_get_user_quota\<close> opens the user store itself; any exception gives
  \<^verbatim>\<open>None\<close>, and so do an unknown user and a record whose quota is \<^verbatim>\<open>None\<close>.\<close>

definition get_user_quota :: "string \<Rightarrow> world \<Rightarrow> int option" where
  "get_user_quota username w =
     (case users_file w of
        Missing \<Rightarrow> None
      | Corrupt \<Rightarrow> None
      | Content us \<Rightarrow> (case map_of us username of None \<Rightarrow> None | Some r \<Rightarrow> quota r))"

text \<open>\<^verbatim>\<open>check_user_quota\<close> answers \<^verbatim>\<open>True\<close> while the user is within quota and
  \<^verbatim>\<open>False\<close> once the quota is reached.\<close>

definition check_user_quota :: "string \<Rightarrow> world \<Rightarrow> bool" where
  "check_user_quota username w =
     (case load_stats w of
        Inl e \<Rightarrow> True
      | Inr s \<Rightarrow>
          (case map_of s username of
             None \<Rightarrow> True
           | Some user_stats \<Rightarrow>
               (let total_traffic = upload user_stats + download user_stats
                in (case get_user_quota username w of
                      None \<Rightarrow> True
                    | Some q \<Rightarrow> total_traffic < q * 1024 * 1024 * 1024))))"

section \<open>service\_manager.py\<close>

text \<open>\<^verbatim>\<open>_load_users\<close>: a missing file reads as the empty dictionary; any other exception
  of \<^verbatim>\<open>json.load\<close> goes to the caller, whose \<^verbatim>\<open>except Exception\<close> returns \<^verbatim>\<open>False\<close>.\<close>

definition load_users :: "world \<Rightarrow> py_error + users" where
  "load_users w =
     (case users_file w of
        Missing \<Rightarrow> Inr []
      | Corrupt \<Rightarrow> Inl JSONDecodeError
      | Content us \<Rightarrow> Inr us)"

text \<open>\<^verbatim>\<open>_save_users\<close> is \<^verbatim>\<open>with open(self.users_file, 'w') as f: json.dump(users, f, indent=4)\<close>:
  opening the canonical path with mode \<^verbatim>\<open>'w'\<close> creates or truncates that very
  file, then the document is written into it. These are the two steps; a process
  that is interrupted has done a prefix of them.\<close>

datatype save_step = Open_w | Dump users

fun do_step :: "save_step \<Rightarrow> world \<Rightarrow> world" where
  "do_step Open_w w = w\<lparr>users_file := Corrupt\<rparr>"
| "do_step (Dump us) w = w\<lparr>users_file := Content us\<rparr>"

definition save_users_steps :: "users \<Rightarrow> save_step list" where
  "save_users_steps us = [Open_w, Dump us]"

definition save_users :: "users \<Rightarrow> world \<Rightarrow> world" where
  "save_users us w = fold do_step (save_users_steps us) w"

text \<open>The state of the disk when \<^verbatim>\<open>_save_users\<close> is interrupted after \<open>n\<close> steps.\<close>

definition save_users_interrupted :: "nat \<Rightarrow> users \<Rightarrow> world \<Rightarrow> world" where
  "save_users_interrupted n us w = fold do_step (take n (save_users_steps us)) w"

text \<open>\<open>now\<close> and \<open>now_stats\<close> are the two clock readings of an \<^verbatim>\<open>add_user\<close> call
  (its own and that of \<^verbatim>\<open>update_user_traffic\<close>), \<open>new_uuid\<close> is the value of
  \<^verbatim>\<open>str(uuid.uuid4())\<close>. The results of \<^verbatim>\<open>update_xray_users\<close> and
  \<^verbatim>\<open>update_user_traffic\<close> are dropped, as in the source.\<close>

definition new_user :: "string \<Rightarrow> string \<Rightarrow> string \<Rightarrow> string \<Rightarrow> int option \<Rightarrow> user" where
  "new_user now new_uuid pw service q =
     (let user_data = \<lparr>password = pw, created_at = now, quota = q, quota_used = 0,
                       banned = False, locked = False, last_login = None,
                       login_attempts = 0, uuid = NoKey, banned_at = NoKey\<rparr>
      in if service = ''xray'' then user_data\<lparr>uuid := Key new_uuid\<rparr> else user_data)"

definition add_user ::
  "string \<Rightarrow> string \<Rightarrow> string \<Rightarrow> string \<Rightarrow> string \<Rightarrow> string \<Rightarrow> int option \<Rightarrow> world
     \<Rightarrow> bool \<times> world" where
  "add_user now new_uuid now_stats username pw service q w =
     (case load_users w of
        Inl e \<Rightarrow> (False, w)
      | Inr users \<Rightarrow>
          (if has_key username users then (False, w)
           else
             (let users = AList.update username (new_user now new_uuid pw service q) users;
                  w = save_users users w;
                  w = (if service = ''ssh''
                       then run_input [''chpasswd''] (username @ '':'' @ pw)
                              (run [''useradd'', ''-m'', ''-s'', ''/bin/bash'', username] w)
                       else w);
                  w = (if service = ''xray'' then snd (update_xray_users users w) else w);
                  w = snd (update_user_traffic now_stats username 0 0 w)
              in (True, w))))"

definition delete_user :: "string \<Rightarrow> string \<Rightarrow> world \<Rightarrow> bool \<times> world" where
  "delete_user now_stats username w =
     (case load_users w of
        Inl e \<Rightarrow> (False, w)
      | Inr users \<Rightarrow>
          (if \<not> has_key username users then (False, w)
           else
             (let w = run [''userdel'', ''-r'', username] w;
                  users = AList.delete username users;
                  w = save_users users w;
                  w = snd (update_xray_users users w);
                  w = snd (reset_user_traffic now_stats username w)
              in (True, w))))"

text \<open>The store mutation of \<^verbatim>\<open>ban_user\<close> and of \<^verbatim>\<open>unban_user\<close>.\<close>

definition ban_record :: "string \<Rightarrow> user \<Rightarrow> user" where
  "ban_record now r = r\<lparr>banned := True, banned_at := Key (Some now)\<rparr>"

definition unban_record :: "user \<Rightarrow> user" where
  "unban_record r = r\<lparr>banned := False, banned_at := Key None\<rparr>"

definition ban_user :: "string \<Rightarrow> string \<Rightarrow> string \<Rightarrow> world \<Rightarrow> bool \<times> world" where
  "ban_user now username service w =
     (case load_users w of
        Inl e \<Rightarrow> (False, w)
      | Inr users \<Rightarrow>
          (if \<not> has_key username users then (False, w)
           else
             (let users = AList.map_entry username (ban_record now) users;
                  w = save_users users w;
                  w = (if service = ''ssh''
                       then run [''fail2ban-client'', ''set'', ''sshd'', ''banip'', username] w
                       else if service = ''xray'' then snd (update_xray_users users w)
                       else w)
              in (True, w))))"

definition unban_user :: "string \<Rightarrow> string \<Rightarrow> world \<Rightarrow> bool \<times> world" where
  "unban_user username service w =
     (case load_users w of
        Inl e \<Rightarrow> (False, w)
      | Inr users \<Rightarrow>
          (if \<not> has_key username users then (False, w)
           else
             (let users = AList.map_entry username unban_record users;
                  w = save_users users w;
                  w = (if service = ''ssh''
                       then run [''fail2ban-client'', ''set'', ''sshd'', ''unbanip'', username] w
                       else if service = ''xray'' then snd (update_xray_users users w)
                       else w)
              in (True, w))))"

definition set_quota :: "string \<Rightarrow> string \<Rightarrow> int \<Rightarrow> world \<Rightarrow> bool \<times> world" where
  "set_quota username service q w =
     (case load_users w of
        Inl e \<Rightarrow> (False, w)
      | Inr users \<Rightarrow>
          (if \<not> has_key username users then (False, w)
           else
             (let users = AList.map_entry username (\<lambda>r. r\<lparr>quota := Some q\<rparr>) users;
                  w = save_users users w
              in (True, w))))"

definition change_uuid :: "string \<Rightarrow> string \<Rightarrow> world \<Rightarrow> bool \<times> world" where
  "change_uuid new_uuid username w =
     (case load_users w of
        Inl e \<Rightarrow> (False, w)
      | Inr users \<Rightarrow>
          (if \<not> has_key username users then (False, w)
           else
             (let users = AList.map_entry username (\<lambda>r. r\<lparr>uuid := Key new_uuid\<rparr>) users;
                  w = save_users users w;
                  w = snd (update_xray_users users w)
              in (True, w))))"

section \<open>Observations and the spec's derivation\<close>

text \<open>The record the store holds for a user: \<^verbatim>\<open>self._load_users().get(username)\<close>,
  the first two lines of \<^verbatim>\<open>get_user_info\<close>. That method has no \<^verbatim>\<open>try\<close>: an exception
  of \<^verbatim>\<open>_load_users\<close> goes to its caller. \<open>Inr None\<close> is the answer for a username
  that is not in the store.\<close>

definition lookup_user :: "string \<Rightarrow> world \<Rightarrow> py_error + user option" where
  "lookup_user username w =
     (case load_users w of Inl e \<Rightarrow> Inl e | Inr users \<Rightarrow> Inr (map_of users username))"

text \<open>The protocol and the client list of every inbound of the proxy artifact.\<close>

definition artifact_clients :: "world \<Rightarrow> (string \<times> client list) list" where
  "artifact_clients w =
     (case xray_file w of
        Content config \<Rightarrow> map (\<lambda>ib. (protocol ib, clients ib)) (inbounds config)
      | _ \<Rightarrow> [])"

text \<open>The string values carried by the client entries of an inbound: the identity
  tokens it admits.\<close>

fun jstr :: "jval \<Rightarrow> string list" where
  "jstr (JStr s) = [s]"
| "jstr (JInt i) = []"

definition client_tokens :: "inbound \<Rightarrow> string list" where
  "client_tokens ib = concat (map (\<lambda>c. concat (map (\<lambda>(k, v). jstr v) c)) (clients ib))"

text \<open>The inbound protocols whose client list \<^verbatim>\<open>update_xray_users\<close> rebuilds.\<close>

definition is_proxy :: "string \<Rightarrow> bool" where
  "is_proxy p = (p = ''vmess'' \<or> p = ''vless'' \<or> p = ''trojan'')"

text \<open>The client list as the specification derives it (section 4.2): keep the users
  that are not banned and carry an identity token, project to the token, in the
  insertion order of the user mapping.\<close>

fun spec_tokens :: "users \<Rightarrow> string list" where
  "spec_tokens [] = []"
| "spec_tokens ((username, user_data) # rest) =
     (case uuid user_data of
        Key t \<Rightarrow> (if banned user_data then spec_tokens rest else t # spec_tokens rest)
      | NoKey \<Rightarrow> spec_tokens rest)"

text \<open>Every user that is not banned carries a token.\<close>

definition tokens_ok :: "users \<Rightarrow> bool" where
  "tokens_ok us = list_all (\<lambda>(n, r). banned r \<or> uuid r \<noteq> NoKey) us"

section \<open>Scenario data\<close>

text \<open>The world right after \<^verbatim>\<open>ServiceManager()\<close> has run on a fresh host: both
  managers have written an empty dictionary, no proxy artifact exists yet.\<close>

definition fresh :: world where
  "fresh = \<lparr>users_file = Content [], stats_file = Content [],
            xray_file = Missing, commands = []\<rparr>"

text \<open>The VMess inbound that \<^verbatim>\<open>configure_xray\<close> writes for port 443, with a given
  client list.\<close>

definition vmess_inbound :: "client list \<Rightarrow> inbound" where
  "vmess_inbound cs =
     \<lparr>port = 443, protocol = ''vmess'', clients = cs, network = ''ws'', path = ''/vmess''\<rparr>"

text \<open>The proxy configured with the default protocols (VMess only).\<close>

definition configured :: world where
  "configured = snd (configure_xray 443 [] fresh)"

definition alice :: user where
  "alice = new_user ''t1'' ''uuid-a'' ''pw1'' ''xray'' (Some 5)"

definition bob :: user where
  "bob = new_user ''t2'' ''uuid-b'' ''pw2'' ''ssh'' None"

text \<open>One proxy user.\<close>

definition alice_only :: world where
  "alice_only =
     snd (add_user ''t1'' ''uuid-a'' ''t1'' ''alice'' ''pw1'' ''xray'' (Some 5) configured)"

text \<open>A proxy user, then a shell user.\<close>

definition alice_then_bob :: world where
  "alice_then_bob =
     snd (add_user ''t2'' ''uuid-b'' ''t2'' ''bob'' ''pw2'' ''ssh'' None alice_only)"

text \<open>A shell user only, and a shell user followed by a proxy user.\<close>

definition bob_only :: world where
  "bob_only = snd (add_user ''t2'' ''uuid-b'' ''t2'' ''bob'' ''pw2'' ''ssh'' None configured)"

definition bob_then_alice :: world where
  "bob_then_alice =
     snd (add_user ''t1'' ''uuid-a'' ''t1'' ''alice'' ''pw1'' ''xray'' (Some 5) bob_only)"

text \<open>A host whose usage-counter file is not a complete document (\<^verbatim>\<open>_save_stats\<close>
  writes it in place, as \<^verbatim>\<open>_save_users\<close> does), and a proxy user with quota 0 added
  there: \<^verbatim>\<open>update_user_traffic\<close> fails and she gets no entry in the counters. In
  \<open>carol_recreated\<close> the counter file has been created anew, as the empty dictionary
  that \<^verbatim>\<open>_ensure_stats_file\<close> writes. \<open>carol_tracked\<close> is the same user added on a host
  whose counters can be read.\<close>

definition unreadable_stats :: world where
  "unreadable_stats = configured\<lparr>stats_file := Corrupt\<rparr>"

definition carol_untracked :: world where
  "carol_untracked =
     snd (add_user ''t4'' ''uuid-c'' ''t4'' ''carol'' ''pw3'' ''xray'' (Some 0) unreadable_stats)"

definition carol_recreated :: world where
  "carol_recreated = carol_untracked\<lparr>stats_file := Content []\<rparr>"

definition carol_tracked :: world where
  "carol_tracked =
     snd (add_user ''t4'' ''uuid-c'' ''t4'' ''carol'' ''pw3'' ''xray'' (Some 0) configured)"

text \<open>Traffic reported for the proxy user of \<open>alice_then_bob\<close>.\<close>

definition usage_world :: "int \<Rightarrow> int \<Rightarrow> world" where
  "usage_world up down = snd (update_user_traffic ''t3'' ''alice'' up down alice_then_bob)"

section \<open>Basic facts\<close>

lemma save_users_eq: "save_users us w = w\<lparr>users_file := Content us\<rparr>"
  by (simp add: save_users_def save_users_steps_def)

lemma has_key_map_of: "has_key k d = (map_of d k \<noteq> None)"
  by (simp add: has_key_def map_of_eq_None_iff)

lemma map_entry_distinct:
  "distinct (map fst xs) \<Longrightarrow>
   AList.map_entry k f xs = map (\<lambda>(n, r). if n = k then (n, f r) else (n, r)) xs"
proof (induction xs)
  case Nil
  then show ?case by simp
next
  case (Cons p xs)
  obtain n r where p: "p = (n, r)" by (cases p)
  show ?case
  proof (cases "n = k")
    case True
    with Cons.prems p have "k \<notin> fst ` set xs" by auto
    then have "map (\<lambda>(n, r). if n = k then (n, f r) else (n, r)) xs = xs"
      by (induction xs) auto
    with True p show ?thesis by simp
  next
    case False
    with Cons p show ?thesis by simp
  qed
qed

lemma update_xray_users_keeps_store:
  "users_file (snd (update_xray_users us w)) = users_file w"
  by (auto simp: update_xray_users_def update_xray_users_body_def run_def
        split: file_state.splits sum.splits)

lemma update_xray_users_success:
  "fst (update_xray_users us w) =
     (\<exists>c ibs. xray_file w = Content c \<and> update_inbounds us (inbounds c) = Inr ibs)"
  by (auto simp: update_xray_users_def update_xray_users_body_def
        split: file_state.splits sum.splits)

lemma update_xray_users_result:
  "xray_file w = Content c \<Longrightarrow> update_inbounds us (inbounds c) = Inr ibs \<Longrightarrow>
   update_xray_users us w =
     (True, run [''systemctl'', ''restart'', ''xray'']
              (w\<lparr>xray_file := Content (c\<lparr>inbounds := ibs\<rparr>)\<rparr>))"
  by (simp add: update_xray_users_def update_xray_users_body_def)

subsection \<open>The scenario worlds, evaluated\<close>

lemmas eval_defs = add_user_def load_users_def save_users_eq has_key_def new_user_def
  update_xray_users_def update_xray_users_body_def update_inbound_def
  update_user_traffic_def load_stats_def save_stats_def run_def run_input_def
  vmess_client_def vless_client_def trojan_client_def configure_xray_def enabled_def
  fresh_def ban_user_def unban_user_def ban_record_def unban_record_def
  change_uuid_def delete_user_def reset_user_traffic_def set_quota_def
  lookup_user_def artifact_clients_def alice_def bob_def

lemma configured_eq:
  "configured =
     \<lparr>users_file = Content [], stats_file = Content [],
      xray_file = Content \<lparr>inbounds = [vmess_inbound []], outbounds = [''freedom'']\<rparr>,
      commands = [Run [''systemctl'', ''restart'', ''xray''] None]\<rparr>"
  by (simp add: configured_def vmess_inbound_def eval_defs)

lemma alice_only_eq:
  "alice_only =
     \<lparr>users_file = Content [(''alice'', alice)],
      stats_file = Content [(''alice'', \<lparr>upload = 0, download = 0, last_reset = ''t1''\<rparr>)],
      xray_file = Content \<lparr>inbounds = [vmess_inbound [vmess_client ''uuid-a'']],
                            outbounds = [''freedom'']\<rparr>,
      commands = [Run [''systemctl'', ''restart'', ''xray''] None,
                  Run [''systemctl'', ''restart'', ''xray''] None]\<rparr>"
  by (simp add: alice_only_def configured_eq vmess_inbound_def eval_defs)

lemma alice_then_bob_eq:
  "alice_then_bob =
     \<lparr>users_file = Content [(''alice'', alice), (''bob'', bob)],
      stats_file = Content [(''alice'', \<lparr>upload = 0, download = 0, last_reset = ''t1''\<rparr>),
                            (''bob'', \<lparr>upload = 0, download = 0, last_reset = ''t2''\<rparr>)],
      xray_file = Content \<lparr>inbounds = [vmess_inbound [vmess_client ''uuid-a'']],
                            outbounds = [''freedom'']\<rparr>,
      commands = [Run [''systemctl'', ''restart'', ''xray''] None,
                  Run [''systemctl'', ''restart'', ''xray''] None,
                  Run [''useradd'', ''-m'', ''-s'', ''/bin/bash'', ''bob''] None,
                  Run [''chpasswd''] (Some ''bob:pw2'')]\<rparr>"
  by (simp add: alice_then_bob_def alice_only_eq vmess_inbound_def eval_defs)

lemma bob_only_eq:
  "bob_only =
     \<lparr>users_file = Content [(''bob'', bob)],
      stats_file = Content [(''bob'', \<lparr>upload = 0, download = 0, last_reset = ''t2''\<rparr>)],
      xray_file = Content \<lparr>inbounds = [vmess_inbound []], outbounds = [''freedom'']\<rparr>,
      commands = [Run [''systemctl'', ''restart'', ''xray''] None,
                  Run [''useradd'', ''-m'', ''-s'', ''/bin/bash'', ''bob''] None,
                  Run [''chpasswd''] (Some ''bob:pw2'')]\<rparr>"
  by (simp add: bob_only_def configured_eq vmess_inbound_def eval_defs)

lemma bob_then_alice_eq:
  "bob_then_alice =
     \<lparr>users_file = Content [(''bob'', bob), (''alice'', alice)],
      stats_file = Content [(''bob'', \<lparr>upload = 0, download = 0, last_reset = ''t2''\<rparr>),
                            (''alice'', \<lparr>upload = 0, download = 0, last_reset = ''t1''\<rparr>)],
      xray_file = Content \<lparr>inbounds = [vmess_inbound []], outbounds = [''freedom'']\<rparr>,
      commands = [Run [''systemctl'', ''restart'', ''xray''] None,
                  Run [''useradd'', ''-m'', ''-s'', ''/bin/bash'', ''bob''] None,
                  Run [''chpasswd''] (Some ''bob:pw2'')]\<rparr>"
  by (simp add: bob_then_alice_def bob_only_eq vmess_inbound_def eval_defs)

lemma carol_untracked_eq:
  "carol_untracked =
     \<lparr>users_file = Content [(''carol'', new_user ''t4'' ''uuid-c'' ''pw3'' ''xray'' (Some 0))],
      stats_file = Corrupt,
      xray_file = Content \<lparr>inbounds = [vmess_inbound [vmess_client ''uuid-c'']],
                            outbounds = [''freedom'']\<rparr>,
      commands = [Run [''systemctl'', ''restart'', ''xray''] None,
                  Run [''systemctl'', ''restart'', ''xray''] None]\<rparr>"
  by (simp add: carol_untracked_def unreadable_stats_def configured_eq vmess_inbound_def
        add_user_def load_users_def save_users_eq has_key_def update_xray_users_def
        update_xray_users_body_def update_inbound_def update_user_traffic_def load_stats_def
        run_def vmess_client_def new_user_def)

lemma carol_tracked_eq:
  "carol_tracked =
     \<lparr>users_file = Content [(''carol'', new_user ''t4'' ''uuid-c'' ''pw3'' ''xray'' (Some 0))],
      stats_file = Content [(''carol'', \<lparr>upload = 0, download = 0, last_reset = ''t4''\<rparr>)],
      xray_file = Content \<lparr>inbounds = [vmess_inbound [vmess_client ''uuid-c'']],
                            outbounds = [''freedom'']\<rparr>,
      commands = [Run [''systemctl'', ''restart'', ''xray''] None,
                  Run [''systemctl'', ''restart'', ''xray''] None]\<rparr>"
  by (simp add: carol_tracked_def configured_eq vmess_inbound_def
        add_user_def load_users_def save_users_eq has_key_def update_xray_users_def
        update_xray_users_body_def update_inbound_def update_user_traffic_def load_stats_def
        save_stats_def run_def vmess_client_def new_user_def)

section \<open>Validation: adding a user that exists\<close>

text \<open>C5. When the username is already a key of the store, \<^verbatim>\<open>add_user\<close> returns
  \<^verbatim>\<open>False\<close> and the world is the one it started from: the three files are untouched
  and no command has been run.\<close>

theorem add_user_existing:
  assumes "load_users w = Inr us" and "has_key username us"
  shows "add_user now new_uuid now_stats username pw service q w = (False, w)"
  using assms by (simp add: add_user_def)

text \<open>C5 at a concrete store: adding \<open>alice\<close> again, as a shell user with another
  password.\<close>

theorem add_user_existing_witness:
  "load_users alice_only = Inr [(''alice'', alice)]
   \<and> has_key ''alice'' [(''alice'', alice)]
   \<and> add_user ''t9'' ''uuid-z'' ''t9'' ''alice'' ''other'' ''ssh'' None alice_only
       = (False, alice_only)"
proof -
  have l: "load_users alice_only = Inr [(''alice'', alice)]"
    by (simp add: alice_only_eq load_users_def)
  have k: "has_key ''alice'' [(''alice'', alice)]"
    by (simp add: has_key_def)
  from l k add_user_existing [OF l k] show ?thesis by simp
qed

section \<open>Frame of set\_quota\<close>

text \<open>C10. For a user of the store, \<^verbatim>\<open>set_quota\<close> returns \<^verbatim>\<open>True\<close> and the new world
  differs from the old one in the store only; in the store every entry keeps its
  place, every other user keeps its record, and the record of the target differs
  in the field \<open>quota\<close> only. The usage counters, the proxy artifact and the
  commands are those of the old world, and the service argument does not occur
  in the result.\<close>

theorem set_quota_frame:
  assumes "load_users w = Inr us" and "has_key username us"
    and "distinct (map fst us)"
  shows "set_quota username service q w =
           (True, w\<lparr>users_file := Content
               (map (\<lambda>(n, r). if n = username then (n, r\<lparr>quota := Some q\<rparr>) else (n, r)) us)\<rparr>)"
  using assms by (simp add: set_quota_def save_users_eq map_entry_distinct)

text \<open>C10 at a concrete store, once for each service argument.\<close>

theorem set_quota_frame_witness:
  "load_users alice_then_bob = Inr [(''alice'', alice), (''bob'', bob)]
   \<and> has_key ''alice'' [(''alice'', alice), (''bob'', bob)]
   \<and> distinct (map fst [(''alice'', alice), (''bob'', bob)])
   \<and> set_quota ''alice'' ''xray'' 9 alice_then_bob
       = (True, alice_then_bob\<lparr>users_file :=
            Content [(''alice'', alice\<lparr>quota := Some 9\<rparr>), (''bob'', bob)]\<rparr>)
   \<and> set_quota ''alice'' ''ssh'' 9 alice_then_bob
       = (True, alice_then_bob\<lparr>users_file :=
            Content [(''alice'', alice\<lparr>quota := Some 9\<rparr>), (''bob'', bob)]\<rparr>)"
proof -
  have l: "load_users alice_then_bob = Inr [(''alice'', alice), (''bob'', bob)]"
    by (simp add: alice_then_bob_eq load_users_def)
  have k: "has_key ''alice'' [(''alice'', alice), (''bob'', bob)]"
    by (simp add: has_key_def)
  have d: "distinct (map fst [(''alice'', alice), (''bob'', bob)])"
    by simp
  from l k d set_quota_frame [OF l k d, of "''xray''" 9] set_quota_frame [OF l k d, of "''ssh''" 9]
  show ?thesis by simp
qed

section \<open>The quota threshold\<close>

text \<open>C2, as the code has it. \<^verbatim>\<open>check_user_quota\<close> answers \<^verbatim>\<open>True\<close> for "within quota",
  so it reports a user over quota when it answers \<^verbatim>\<open>False\<close>. For a user whose quota
  is \<open>q\<close> and who has an entry in the usage counters, with counters \<open>upload\<close> and
  \<open>download\<close>, it reports over quota exactly when \<open>upload + download \<ge> q * 2^30\<close>:
  not at \<open>q * 2^30 - 1\<close>, and at \<open>q * 2^30\<close>. For a user without a quota it never
  reports over quota. For a user who has no entry in the usage counters, and when
  the counters cannot be read, it never reports over quota either, whatever the
  quota is: it answers before the quota is read.\<close>

theorem check_user_quota_boundary:
  "(get_user_quota username w = None \<longrightarrow> check_user_quota username w)
   \<and> (load_stats w = Inl e \<longrightarrow> check_user_quota username w)
   \<and> (load_stats w = Inr s \<and> map_of s username = None \<longrightarrow> check_user_quota username w)
   \<and> (get_user_quota username w = Some q \<and> load_stats w = Inr s \<and> map_of s username = Some t
        \<longrightarrow> (\<not> check_user_quota username w) = (q * 2 ^ 30 \<le> upload t + download t)
          \<and> (upload t + download t = q * 2 ^ 30 - 1 \<longrightarrow> check_user_quota username w)
          \<and> (upload t + download t = q * 2 ^ 30 \<longrightarrow> \<not> check_user_quota username w))"
proof -
  have unlimited: "check_user_quota username w" if "get_user_quota username w = None"
    using that by (simp add: check_user_quota_def split: sum.splits option.splits)
  have unreadable: "check_user_quota username w" if "load_stats w = Inl e"
    using that by (simp add: check_user_quota_def)
  have untracked: "check_user_quota username w"
    if "load_stats w = Inr s" "map_of s username = None"
    using that by (simp add: check_user_quota_def)
  have limited: "check_user_quota username w = (upload t + download t < q * 2 ^ 30)"
    if "get_user_quota username w = Some q" "load_stats w = Inr s" "map_of s username = Some t"
    using that by (simp add: check_user_quota_def mult.commute)
  show ?thesis
    using unlimited unreadable untracked limited by auto
qed

text \<open>C2 at concrete counters: quota 5, usage exactly \<open>5 * 2^30\<close> and one byte less;
  a user without a quota; and a user with quota 0 whose counters are missing from
  the file or cannot be read.\<close>

theorem check_user_quota_boundary_witness:
  "get_user_quota ''alice'' (usage_world (4 * 2 ^ 30) (2 ^ 30)) = Some 5
   \<and> \<not> check_user_quota ''alice'' (usage_world (4 * 2 ^ 30) (2 ^ 30))
   \<and> get_user_quota ''alice'' (usage_world (4 * 2 ^ 30) (2 ^ 30 - 1)) = Some 5
   \<and> check_user_quota ''alice'' (usage_world (4 * 2 ^ 30) (2 ^ 30 - 1))
   \<and> get_user_quota ''bob'' (usage_world (4 * 2 ^ 30) (2 ^ 30)) = None
   \<and> check_user_quota ''bob'' (usage_world (4 * 2 ^ 30) (2 ^ 30))
   \<and> load_stats carol_untracked = Inl JSONDecodeError
   \<and> check_user_quota ''carol'' carol_untracked
   \<and> load_stats carol_recreated = Inr []
   \<and> map_of ([] :: stats) ''carol'' = None
   \<and> check_user_quota ''carol'' carol_recreated"
proof -
  let ?at = "usage_world (4 * 2 ^ 30) (2 ^ 30)"
  let ?below = "usage_world (4 * 2 ^ 30) (2 ^ 30 - 1)"
  have q: "get_user_quota ''alice'' ?at = Some 5" "get_user_quota ''alice'' ?below = Some 5"
    "get_user_quota ''bob'' ?at = None"
    by (simp_all add: usage_world_def alice_then_bob_eq get_user_quota_def eval_defs)
  let ?t_at = "\<lparr>upload = 4 * 2 ^ 30, download = 2 ^ 30, last_reset = ''t1''\<rparr>"
  let ?t_below = "\<lparr>upload = 4 * 2 ^ 30, download = 2 ^ 30 - 1, last_reset = ''t1''\<rparr>"
  let ?t_bob = "\<lparr>upload = 0, download = 0, last_reset = ''t2''\<rparr>"
  have s_at: "load_stats ?at = Inr [(''alice'', ?t_at), (''bob'', ?t_bob)]"
    by (simp add: usage_world_def alice_then_bob_eq eval_defs)
  have s_below: "load_stats ?below = Inr [(''alice'', ?t_below), (''bob'', ?t_bob)]"
    by (simp add: usage_world_def alice_then_bob_eq eval_defs)
  have s_untracked: "load_stats carol_untracked = Inl JSONDecodeError"
    by (simp add: carol_untracked_eq load_stats_def)
  have s_recreated: "load_stats carol_recreated = Inr []"
    by (simp add: carol_recreated_def load_stats_def)
  have none: "map_of ([] :: stats) ''carol'' = None"
    by simp
  have "\<not> check_user_quota ''alice'' ?at"
    using check_user_quota_boundary
      [of "''alice''" ?at JSONDecodeError "[(''alice'', ?t_at), (''bob'', ?t_bob)]" 5 ?t_at]
      q s_at
    by simp
  moreover have "check_user_quota ''alice'' ?below"
    using check_user_quota_boundary
      [of "''alice''" ?below JSONDecodeError "[(''alice'', ?t_below), (''bob'', ?t_bob)]" 5
          ?t_below]
      q s_below
    by simp
  moreover have "check_user_quota ''bob'' ?at"
    using check_user_quota_boundary [of "''bob''" ?at] q by simp
  moreover have "check_user_quota ''carol'' carol_untracked"
    using check_user_quota_boundary [of "''carol''" carol_untracked JSONDecodeError] s_untracked
    by simp
  moreover have "check_user_quota ''carol'' carol_recreated"
    using check_user_quota_boundary [of "''carol''" carol_recreated JSONDecodeError "[]"]
      s_recreated none
    by simp
  ultimately show ?thesis using q s_untracked s_recreated none by simp
qed

text \<open>C2 fails as stated. \<open>carol\<close> is added with quota 0 on a host whose counter file
  cannot be read; the call returns \<^verbatim>\<open>True\<close> and her quota is set. She has no entry in
  the counters. Once the counter file exists again, \<^verbatim>\<open>get_user_traffic\<close> reports
  her usage as zero, and zero reaches her quota of \<open>0 * 2^30\<close> bytes; yet
  \<^verbatim>\<open>check_user_quota\<close> answers \<^verbatim>\<open>True\<close>, within quota, and so it does while the file
  cannot be read. Added on a host whose counters can be read, the same user has
  an entry with zero counters and is reported over quota.\<close>

theorem untracked_user_never_over_quota:
  "fst (add_user ''t4'' ''uuid-c'' ''t4'' ''carol'' ''pw3'' ''xray'' (Some 0) unreadable_stats)
     = True
   \<and> get_user_quota ''carol'' carol_untracked = Some 0
   \<and> get_user_traffic ''t5'' ''carol'' carol_untracked = None
   \<and> check_user_quota ''carol'' carol_untracked = True
   \<and> get_user_quota ''carol'' carol_recreated = Some 0
   \<and> get_user_traffic ''t5'' ''carol'' carol_recreated
       = Some \<lparr>upload = 0, download = 0, last_reset = ''t5''\<rparr>
   \<and> check_user_quota ''carol'' carol_recreated = True
   \<and> (\<not> check_user_quota ''carol'' carol_recreated)
       \<noteq> ((0 :: int) * 2 ^ 30
            \<le> upload \<lparr>upload = 0, download = 0, last_reset = ''t5''\<rparr>
              + download \<lparr>upload = 0, download = 0, last_reset = ''t5''\<rparr>)
   \<and> get_user_quota ''carol'' carol_tracked = Some 0
   \<and> get_user_traffic ''t5'' ''carol'' carol_tracked
       = Some \<lparr>upload = 0, download = 0, last_reset = ''t4''\<rparr>
   \<and> check_user_quota ''carol'' carol_tracked = False"
proof -
  have added:
    "fst (add_user ''t4'' ''uuid-c'' ''t4'' ''carol'' ''pw3'' ''xray'' (Some 0) unreadable_stats)
       = True"
    by (simp add: unreadable_stats_def configured_eq vmess_inbound_def eval_defs)
  have untracked: "get_user_quota ''carol'' carol_untracked = Some 0"
    "get_user_traffic ''t5'' ''carol'' carol_untracked = None"
    "check_user_quota ''carol'' carol_untracked = True"
    by (simp_all add: carol_untracked_eq get_user_quota_def get_user_traffic_def
          check_user_quota_def load_stats_def new_user_def)
  have recreated: "get_user_quota ''carol'' carol_recreated = Some 0"
    "get_user_traffic ''t5'' ''carol'' carol_recreated
       = Some \<lparr>upload = 0, download = 0, last_reset = ''t5''\<rparr>"
    "check_user_quota ''carol'' carol_recreated = True"
    by (simp_all add: carol_recreated_def carol_untracked_eq get_user_quota_def
          get_user_traffic_def check_user_quota_def load_stats_def new_user_def)
  have tracked: "get_user_quota ''carol'' carol_tracked = Some 0"
    "get_user_traffic ''t5'' ''carol'' carol_tracked
       = Some \<lparr>upload = 0, download = 0, last_reset = ''t4''\<rparr>"
    "check_user_quota ''carol'' carol_tracked = False"
    by (simp_all add: carol_tracked_eq get_user_quota_def get_user_traffic_def
          check_user_quota_def load_stats_def new_user_def)
  from added untracked recreated tracked show ?thesis by simp
qed

section \<open>Regenerating the proxy artifact\<close>

lemma update_inbound_idem:
  "update_inbound us ib = Inr ib' \<Longrightarrow> update_inbound us ib' = Inr ib'"
  by (auto simp: update_inbound_def split: if_splits sum.splits)

lemma update_inbounds_idem:
  "update_inbounds us ibs = Inr ibs' \<Longrightarrow> update_inbounds us ibs' = Inr ibs'"
proof (induction ibs arbitrary: ibs')
  case Nil
  then show ?case by simp
next
  case (Cons ib ibs)
  then show ?case
    by (auto split: sum.splits simp: update_inbound_idem)
qed

text \<open>C8. Running \<^verbatim>\<open>update_xray_users\<close> a second time with the same user mapping
  leaves the artifact that the first run left, and reports the same result; and
  \<^verbatim>\<open>configure_xray\<close>, run twice with the same port and protocol switches, writes
  the same artifact. The artifact is compared as the document it holds, of which
  the bytes \<^verbatim>\<open>json.dump\<close> writes are a function.\<close>

theorem regeneration_idempotent:
  "xray_file (snd (update_xray_users us (snd (update_xray_users us w))))
     = xray_file (snd (update_xray_users us w))
   \<and> fst (update_xray_users us (snd (update_xray_users us w)))
     = fst (update_xray_users us w)
   \<and> xray_file (snd (configure_xray p protocols (snd (configure_xray p protocols w))))
     = xray_file (snd (configure_xray p protocols w))"
proof -
  have "xray_file (snd (update_xray_users us (snd (update_xray_users us w))))
          = xray_file (snd (update_xray_users us w))
        \<and> fst (update_xray_users us (snd (update_xray_users us w)))
          = fst (update_xray_users us w)"
    by (auto simp: update_xray_users_def update_xray_users_body_def run_def
          split: file_state.splits sum.splits dest: update_inbounds_idem)
  moreover have "xray_file (snd (configure_xray p protocols (snd (configure_xray p protocols w))))
          = xray_file (snd (configure_xray p protocols w))"
    by (simp add: configure_xray_def Let_def run_def)
  ultimately show ?thesis by simp
qed

section \<open>What the result of an operation reflects\<close>

text \<open>C1, as the code has it. The value returned by \<^verbatim>\<open>update_xray_users\<close> is dropped at
  every call site, so the result of \<^verbatim>\<open>add_user\<close>, \<^verbatim>\<open>delete_user\<close>, \<^verbatim>\<open>ban_user\<close> and
  \<^verbatim>\<open>unban_user\<close> does not depend on the proxy backend apply: it is the same whatever
  the artifact file holds, which is all that the success of \<^verbatim>\<open>update_xray_users\<close>
  depends on besides the mapping. What a success result does imply is that the
  store could be read and the username test passed.\<close>

theorem result_ignores_apply:
  "fst (add_user now new_uuid now_stats username pw service q (w\<lparr>xray_file := x\<rparr>))
     = fst (add_user now new_uuid now_stats username pw service q w)
   \<and> fst (delete_user now_stats username (w\<lparr>xray_file := x\<rparr>))
     = fst (delete_user now_stats username w)
   \<and> fst (ban_user now username service (w\<lparr>xray_file := x\<rparr>))
     = fst (ban_user now username service w)
   \<and> fst (unban_user username service (w\<lparr>xray_file := x\<rparr>))
     = fst (unban_user username service w)
   \<and> (fst (add_user now new_uuid now_stats username pw service q w)
        \<longrightarrow> (\<exists>us. load_users w = Inr us \<and> \<not> has_key username us))
   \<and> (fst (delete_user now_stats username w)
        \<longrightarrow> (\<exists>us. load_users w = Inr us \<and> has_key username us))
   \<and> (fst (ban_user now username service w)
        \<longrightarrow> (\<exists>us. load_users w = Inr us \<and> has_key username us))
   \<and> (fst (unban_user username service w)
        \<longrightarrow> (\<exists>us. load_users w = Inr us \<and> has_key username us))"
proof -
  have add: "fst (add_user now new_uuid now_stats username pw service q v)
          = (case load_users v of Inl e \<Rightarrow> False | Inr us \<Rightarrow> \<not> has_key username us)" for v
    by (simp add: add_user_def Let_def split: sum.splits)
  have del: "fst (delete_user now_stats username v)
          = (case load_users v of Inl e \<Rightarrow> False | Inr us \<Rightarrow> has_key username us)" for v
    by (simp add: delete_user_def Let_def split: sum.splits)
  have ban: "fst (ban_user now username service v)
          = (case load_users v of Inl e \<Rightarrow> False | Inr us \<Rightarrow> has_key username us)" for v
    by (simp add: ban_user_def Let_def split: sum.splits)
  have unban: "fst (unban_user username service v)
          = (case load_users v of Inl e \<Rightarrow> False | Inr us \<Rightarrow> has_key username us)" for v
    by (simp add: unban_user_def Let_def split: sum.splits)
  have same: "load_users (w\<lparr>xray_file := x\<rparr>) = load_users w"
    by (simp add: load_users_def)
  show ?thesis
    unfolding add del ban unban same by (simp split: sum.splits)
qed

text \<open>C1 at a concrete store: \<open>alice\<close> is banned on the configured host, and on the
  same host with the artifact removed, where the apply cannot succeed; the result
  is the same, \<^verbatim>\<open>True\<close>, and the store holds her.\<close>

theorem result_ignores_apply_witness:
  "fst (ban_user ''t2'' ''alice'' ''xray'' (alice_only\<lparr>xray_file := Missing\<rparr>))
     = fst (ban_user ''t2'' ''alice'' ''xray'' alice_only)
   \<and> fst (ban_user ''t2'' ''alice'' ''xray'' alice_only)
   \<and> (\<exists>us. load_users alice_only = Inr us \<and> has_key ''alice'' us)
   \<and> fst (update_xray_users [(''alice'', ban_record ''t2'' alice)]
            (save_users [(''alice'', ban_record ''t2'' alice)]
               (alice_only\<lparr>xray_file := Missing\<rparr>))) = False"
proof -
  have ok: "fst (ban_user ''t2'' ''alice'' ''xray'' alice_only)"
    by (simp add: alice_only_eq vmess_inbound_def eval_defs)
  have failed: "fst (update_xray_users [(''alice'', ban_record ''t2'' alice)]
            (save_users [(''alice'', ban_record ''t2'' alice)]
               (alice_only\<lparr>xray_file := Missing\<rparr>))) = False"
    by (simp add: update_xray_users_def update_xray_users_body_def save_users_eq)
  from result_ignores_apply
         [where w = alice_only and x = Missing and username = "''alice''"
            and service = "''xray''" and now = "''t2''"]
       ok failed
  show ?thesis by simp
qed

text \<open>C1 fails as stated. On a host where the proxy has not been configured the
  artifact does not exist. \<^verbatim>\<open>add_user\<close> for a proxy user writes the store and calls
  \<^verbatim>\<open>update_xray_users\<close> with the new mapping; that call returns \<^verbatim>\<open>False\<close>
  (\<^verbatim>\<open>FileNotFoundError\<close>), and \<^verbatim>\<open>add_user\<close> returns \<^verbatim>\<open>True\<close>. The same holds for a ban
  of that user.\<close>

theorem success_despite_failed_apply:
  "fst (add_user ''t1'' ''uuid-a'' ''t1'' ''alice'' ''pw1'' ''xray'' (Some 5) fresh) = True
   \<and> snd (add_user ''t1'' ''uuid-a'' ''t1'' ''alice'' ''pw1'' ''xray'' (Some 5) fresh)
       = snd (update_user_traffic ''t1'' ''alice'' 0 0
           (snd (update_xray_users [(''alice'', alice)]
              (save_users [(''alice'', alice)] fresh))))
   \<and> fst (update_xray_users [(''alice'', alice)] (save_users [(''alice'', alice)] fresh)) = False
   \<and> xray_file (snd (add_user ''t1'' ''uuid-a'' ''t1'' ''alice'' ''pw1'' ''xray'' (Some 5) fresh))
       = Missing
   \<and> fst (ban_user ''t2'' ''alice'' ''xray''
            (snd (add_user ''t1'' ''uuid-a'' ''t1'' ''alice'' ''pw1'' ''xray'' (Some 5) fresh))) = True
   \<and> fst (update_xray_users [(''alice'', ban_record ''t2'' alice)]
            (save_users [(''alice'', ban_record ''t2'' alice)]
               (snd (add_user ''t1'' ''uuid-a'' ''t1'' ''alice'' ''pw1'' ''xray'' (Some 5) fresh))))
       = False"
  by (simp add: eval_defs)

section \<open>How the store is written\<close>

text \<open>C6, as the code has it. \<^verbatim>\<open>_save_users\<close> opens the canonical file for writing,
  which truncates it, and dumps the complete record set into that same file; no
  other path is written and nothing is renamed. Run to its end it leaves exactly
  the new record set. Interrupted before the first step it leaves the old file;
  interrupted after the truncation it leaves a file that is not a complete
  document, which is neither the old record set nor the new one, and on which the
  next \<^verbatim>\<open>_load_users\<close> raises.\<close>

theorem save_users_in_place:
  "save_users_interrupted n us w =
     w\<lparr>users_file := (if n = 0 then users_file w else if n = 1 then Corrupt else Content us)\<rparr>
   \<and> save_users us w = w\<lparr>users_file := Content us\<rparr>
   \<and> load_users (save_users_interrupted 1 us w) = Inl JSONDecodeError
   \<and> load_users (save_users us w) = Inr us"
proof -
  have "n = 0 \<or> n = 1 \<or> 2 \<le> n" by arith
  then have "save_users_interrupted n us w =
     w\<lparr>users_file := (if n = 0 then users_file w else if n = 1 then Corrupt else Content us)\<rparr>"
    by (auto simp: save_users_interrupted_def save_users_steps_def)
  moreover have "save_users us w = w\<lparr>users_file := Content us\<rparr>"
    by (simp add: save_users_def save_users_steps_def)
  moreover have "load_users (save_users_interrupted 1 us w) = Inl JSONDecodeError"
    by (simp add: save_users_interrupted_def save_users_steps_def load_users_def)
  moreover have "load_users (save_users us w) = Inr us"
    by (simp add: save_users_def save_users_steps_def load_users_def)
  ultimately show ?thesis by simp
qed

text \<open>C6 fails as stated. The store holds \<open>alice\<close>; \<^verbatim>\<open>set_quota\<close> saves the record set
  with her quota changed. If the process stops between the truncation and the
  dump, the canonical file holds neither record set: the next \<^verbatim>\<open>_load_users\<close> raises
  \<^verbatim>\<open>JSONDecodeError\<close>, which \<^verbatim>\<open>get_user_info\<close> passes on to its caller and which makes
  every later \<^verbatim>\<open>set_quota\<close> on her return \<^verbatim>\<open>False\<close>.\<close>

theorem interrupted_save_loses_store:
  "users_file alice_only = Content [(''alice'', alice)]
   \<and> users_file (save_users_interrupted 1 [(''alice'', alice\<lparr>quota := Some 9\<rparr>)] alice_only)
       = Corrupt
   \<and> load_users (save_users_interrupted 1 [(''alice'', alice\<lparr>quota := Some 9\<rparr>)] alice_only)
       = Inl JSONDecodeError
   \<and> lookup_user ''alice''
        (save_users_interrupted 1 [(''alice'', alice\<lparr>quota := Some 9\<rparr>)] alice_only)
       = Inl JSONDecodeError
   \<and> fst (set_quota ''alice'' ''xray'' 9
        (save_users_interrupted 1 [(''alice'', alice\<lparr>quota := Some 9\<rparr>)] alice_only)) = False"
  by (simp add: alice_only_eq save_users_interrupted_def save_users_steps_def
        load_users_def lookup_user_def set_quota_def)

section \<open>The ban timestamp\<close>

text \<open>C9, as the code has it. Every successful \<^verbatim>\<open>ban_user\<close> call sets \<open>banned\<close> and
  writes the clock reading of that call into \<open>banned_at\<close>, whether the user was
  banned before or not; the rest of the record is kept. Every successful
  \<^verbatim>\<open>unban_user\<close> call clears \<open>banned\<close> and sets \<open>banned_at\<close> to \<^verbatim>\<open>None\<close>.\<close>

theorem ban_sets_unban_clears:
  assumes "load_users w = Inr us" and "map_of us username = Some r"
  shows "fst (ban_user now username service w)
     \<and> lookup_user username (snd (ban_user now username service w))
         = Inr (Some (r\<lparr>banned := True, banned_at := Key (Some now)\<rparr>))
     \<and> fst (unban_user username service w)
     \<and> lookup_user username (snd (unban_user username service w))
         = Inr (Some (r\<lparr>banned := False, banned_at := Key None\<rparr>))"
proof -
  from assms(2) have key: "has_key username us"
    by (simp add: has_key_map_of)
  have b: "users_file (snd (ban_user now username service w))
             = Content (AList.map_entry username (ban_record now) us)"
    using assms(1) key
    by (simp add: ban_user_def Let_def save_users_eq run_def update_xray_users_keeps_store)
  have u: "users_file (snd (unban_user username service w))
             = Content (AList.map_entry username unban_record us)"
    using assms(1) key
    by (simp add: unban_user_def Let_def save_users_eq run_def update_xray_users_keeps_store)
  have "fst (ban_user now username service w)" "fst (unban_user username service w)"
    using assms(1) key by (simp_all add: ban_user_def unban_user_def Let_def)
  moreover have "lookup_user username (snd (ban_user now username service w))
                   = Inr (Some (r\<lparr>banned := True, banned_at := Key (Some now)\<rparr>))"
    using assms(2) by (simp add: lookup_user_def load_users_def b map_of_map_entry ban_record_def)
  moreover have "lookup_user username (snd (unban_user username service w))
                   = Inr (Some (r\<lparr>banned := False, banned_at := Key None\<rparr>))"
    using assms(2) by (simp add: lookup_user_def load_users_def u map_of_map_entry unban_record_def)
  ultimately show ?thesis by simp
qed

text \<open>C9 at a concrete store: \<open>alice\<close>, banned at \<open>t2\<close>, is banned again at \<open>t3\<close> and
  then unbanned.\<close>

theorem ban_sets_unban_clears_witness:
  "load_users (snd (ban_user ''t2'' ''alice'' ''xray'' alice_only))
     = Inr [(''alice'', alice\<lparr>banned := True, banned_at := Key (Some ''t2'')\<rparr>)]
   \<and> map_of [(''alice'', alice\<lparr>banned := True, banned_at := Key (Some ''t2'')\<rparr>)] ''alice''
     = Some (alice\<lparr>banned := True, banned_at := Key (Some ''t2'')\<rparr>)
   \<and> fst (ban_user ''t3'' ''alice'' ''xray'' (snd (ban_user ''t2'' ''alice'' ''xray'' alice_only)))
   \<and> lookup_user ''alice''
        (snd (ban_user ''t3'' ''alice'' ''xray'' (snd (ban_user ''t2'' ''alice'' ''xray'' alice_only))))
     = Inr (Some (alice\<lparr>banned := True, banned_at := Key (Some ''t3'')\<rparr>))
   \<and> fst (unban_user ''alice'' ''xray'' (snd (ban_user ''t2'' ''alice'' ''xray'' alice_only)))
   \<and> lookup_user ''alice''
        (snd (unban_user ''alice'' ''xray'' (snd (ban_user ''t2'' ''alice'' ''xray'' alice_only))))
     = Inr (Some (alice\<lparr>banned := False, banned_at := Key None\<rparr>))"
proof -
  let ?w = "snd (ban_user ''t2'' ''alice'' ''xray'' alice_only)"
  let ?r = "alice\<lparr>banned := True, banned_at := Key (Some ''t2'')\<rparr>"
  have l: "load_users ?w = Inr [(''alice'', ?r)]"
    by (simp add: alice_only_eq vmess_inbound_def eval_defs)
  have m: "map_of [(''alice'', ?r)] ''alice'' = Some ?r"
    by simp
  from l m ban_sets_unban_clears [OF l m, of "''t3''" "''xray''"]
  show ?thesis by simp
qed

text \<open>C9 fails as stated. \<open>alice\<close> is banned at \<open>t2\<close>: she is banned and \<open>banned_at\<close>
  is \<open>t2\<close>. A second \<^verbatim>\<open>ban_user\<close> at \<open>t3\<close>, on the user who is banned already, replaces
  the timestamp by \<open>t3\<close>.\<close>

theorem second_ban_resets_banned_at:
  "lookup_user ''alice'' (snd (ban_user ''t2'' ''alice'' ''xray'' alice_only))
       = Inr (Some (alice\<lparr>banned := True, banned_at := Key (Some ''t2'')\<rparr>))
   \<and> banned (alice\<lparr>banned := True, banned_at := Key (Some ''t2'')\<rparr>) = True
   \<and> banned_at (alice\<lparr>banned := True, banned_at := Key (Some ''t2'')\<rparr>) = Key (Some ''t2'')
   \<and> lookup_user ''alice''
        (snd (ban_user ''t3'' ''alice'' ''xray''
           (snd (ban_user ''t2'' ''alice'' ''xray'' alice_only))))
       = Inr (Some (alice\<lparr>banned := True, banned_at := Key (Some ''t3'')\<rparr>))
   \<and> banned_at (alice\<lparr>banned := True, banned_at := Key (Some ''t3'')\<rparr>) = Key (Some ''t3'')"
  by (simp add: alice_only_eq vmess_inbound_def eval_defs)

section \<open>The client lists of the proxy artifact\<close>

text \<open>The comprehension of \<^verbatim>\<open>update_xray_users\<close> against the derivation of the
  specification: when it returns, it returns the tokens of the users that are not
  banned, in order; it returns exactly when every user that is not banned carries
  a token, and raises \<^verbatim>\<open>KeyError\<close> otherwise.\<close>

lemma client_list_Inr:
  "client_list mk us = Inr cs \<Longrightarrow> cs = map mk (spec_tokens us)"
proof (induction us arbitrary: cs)
  case Nil
  then show ?case by simp
next
  case (Cons p us)
  obtain n r where p: "p = (n, r)" by (cases p)
  from Cons.prems Cons.IH show ?case
    unfolding p by (auto split: if_splits entry.splits sum.splits)
qed

lemma client_list_ok:
  "tokens_ok us \<Longrightarrow> client_list mk us = Inr (map mk (spec_tokens us))"
  by (induction us) (auto simp: tokens_ok_def split: entry.splits)

lemma client_list_fail:
  "\<not> tokens_ok us \<Longrightarrow> client_list mk us = Inl KeyError"
  by (induction us) (auto simp: tokens_ok_def split: entry.splits sum.splits)

lemma set_spec_tokens:
  "t \<in> set (spec_tokens us) \<longleftrightarrow> (\<exists>n r. (n, r) \<in> set us \<and> \<not> banned r \<and> uuid r = Key t)"
proof (induction us rule: spec_tokens.induct)
  case 1
  then show ?case by simp
next
  case (2 username user_data rest)
  show ?case
  proof (cases "uuid user_data")
    case NoKey
    with 2 show ?thesis by auto
  next
    case (Key t')
    with 2 show ?thesis by (cases "banned user_data") auto
  qed
qed

lemma tokens_of_clients:
  "concat (map ((\<lambda>c. concat (map (\<lambda>(k, v). jstr v) c)) \<circ> vmess_client) ts) = ts"
  "concat (map ((\<lambda>c. concat (map (\<lambda>(k, v). jstr v) c)) \<circ> vless_client) ts) = ts"
  "concat (map ((\<lambda>c. concat (map (\<lambda>(k, v). jstr v) c)) \<circ> trojan_client) ts) = ts"
  by (induction ts) (simp_all add: vmess_client_def vless_client_def trojan_client_def)

lemma update_inbound_protocol:
  "update_inbound us ib = Inr ib' \<Longrightarrow> protocol ib' = protocol ib"
  by (auto simp: update_inbound_def split: if_splits sum.splits)

lemma update_inbound_tokens:
  assumes "update_inbound us ib = Inr ib'" and "is_proxy (protocol ib')"
  shows "client_tokens ib' = spec_tokens us"
proof -
  from assms(1) have same: "protocol ib' = protocol ib"
    by (rule update_inbound_protocol)
  with assms(2) have "is_proxy (protocol ib)" by simp
  with assms(1) show ?thesis
    by (auto simp: update_inbound_def is_proxy_def client_tokens_def tokens_of_clients
          split: if_splits sum.splits dest!: client_list_Inr)
qed

lemma update_inbounds_tokens:
  "update_inbounds us ibs = Inr ibs' \<Longrightarrow> ib' \<in> set ibs' \<Longrightarrow> is_proxy (protocol ib')
     \<Longrightarrow> client_tokens ib' = spec_tokens us"
proof (induction ibs arbitrary: ibs')
  case Nil
  then show ?case by simp
next
  case (Cons ib ibs)
  then show ?case
    by (auto split: sum.splits dest: update_inbound_tokens)
qed

lemma update_inbound_success:
  "(\<exists>ib'. update_inbound us ib = Inr ib') = (tokens_ok us \<or> \<not> is_proxy (protocol ib))"
  by (cases "tokens_ok us")
     (auto simp: update_inbound_def is_proxy_def client_list_ok client_list_fail)

lemma update_inbounds_success:
  "(\<exists>ibs'. update_inbounds us ibs = Inr ibs')
     = (tokens_ok us \<or> \<not> list_ex (\<lambda>ib. is_proxy (protocol ib)) ibs)"
proof (induction ibs)
  case Nil
  then show ?case by simp
next
  case (Cons ib ibs)
  have "(\<exists>ibs'. update_inbounds us (ib # ibs) = Inr ibs')
          = ((\<exists>ib'. update_inbound us ib = Inr ib') \<and> (\<exists>ibs'. update_inbounds us ibs = Inr ibs'))"
    by (auto split: sum.splits)
  then show ?case
    unfolding Cons.IH update_inbound_success by auto
qed

lemma update_inbounds_protocols:
  "update_inbounds us ibs = Inr ibs' \<Longrightarrow> map protocol ibs' = map protocol ibs"
proof (induction ibs arbitrary: ibs')
  case Nil
  then show ?case by simp
next
  case (Cons ib ibs)
  then show ?case
    by (auto split: sum.splits dest: update_inbound_protocol)
qed

text \<open>C3, on the code. The comprehension keeps every user that is not banned and
  reads his token, so a single user that is not banned and has no token (any shell
  user) raises \<^verbatim>\<open>KeyError\<close>: on every artifact with a VMess, VLESS or Trojan
  inbound \<^verbatim>\<open>update_xray_users\<close> returns \<^verbatim>\<open>False\<close> and leaves the world, and with it
  the artifact, as it was. The users that do carry a token are not written.\<close>

theorem tokenless_user_blocks_generation:
  assumes "\<not> tokens_ok us" and "xray_file w = Content c"
    and "list_ex (\<lambda>ib. is_proxy (protocol ib)) (inbounds c)"
  shows "update_xray_users us w = (False, w)"
proof -
  from assms(1,3) have "\<not> (\<exists>ibs. update_inbounds us (inbounds c) = Inr ibs)"
    by (simp add: update_inbounds_success)
  then obtain e where "update_inbounds us (inbounds c) = Inl e"
    by (cases "update_inbounds us (inbounds c)") auto
  with assms(2) show ?thesis
    by (simp add: update_xray_users_def update_xray_users_body_def)
qed

text \<open>C3 at the failing input. A shell user \<open>bob\<close> is added, then a proxy user
  \<open>alice\<close>; both calls return \<^verbatim>\<open>True\<close>. \<open>alice\<close> is not banned and carries the token
  \<open>uuid-a\<close>, which is the client list the specification derives. The code raises
  \<^verbatim>\<open>KeyError\<close> on \<open>bob\<close>, who has no token: \<^verbatim>\<open>update_xray_users\<close> returns \<^verbatim>\<open>False\<close>,
  the artifact is not rewritten and its VMess client list stays empty.\<close>

theorem ssh_user_blocks_generation:
  "fst (add_user ''t2'' ''uuid-b'' ''t2'' ''bob'' ''pw2'' ''ssh'' None configured) = True
   \<and> fst (add_user ''t1'' ''uuid-a'' ''t1'' ''alice'' ''pw1'' ''xray'' (Some 5) bob_only) = True
   \<and> load_users bob_then_alice = Inr [(''bob'', bob), (''alice'', alice)]
   \<and> uuid bob = NoKey \<and> banned bob = False
   \<and> uuid alice = Key ''uuid-a'' \<and> banned alice = False
   \<and> spec_tokens [(''bob'', bob), (''alice'', alice)] = [''uuid-a'']
   \<and> client_list vmess_client [(''bob'', bob), (''alice'', alice)] = Inl KeyError
   \<and> \<not> tokens_ok [(''bob'', bob), (''alice'', alice)]
   \<and> xray_file bob_then_alice
       = Content \<lparr>inbounds = [vmess_inbound []], outbounds = [''freedom'']\<rparr>
   \<and> list_ex (\<lambda>ib. is_proxy (protocol ib)) [vmess_inbound []]
   \<and> update_xray_users [(''bob'', bob), (''alice'', alice)] bob_then_alice
       = (False, bob_then_alice)
   \<and> artifact_clients bob_then_alice = [(''vmess'', [])]"
proof -
  have calls:
    "fst (add_user ''t2'' ''uuid-b'' ''t2'' ''bob'' ''pw2'' ''ssh'' None configured) = True"
    "fst (add_user ''t1'' ''uuid-a'' ''t1'' ''alice'' ''pw1'' ''xray'' (Some 5) bob_only) = True"
    by (simp_all add: bob_only_eq configured_eq vmess_inbound_def eval_defs)
  have store: "load_users bob_then_alice = Inr [(''bob'', bob), (''alice'', alice)]"
    by (simp add: bob_then_alice_eq load_users_def)
  have records: "uuid bob = NoKey" "banned bob = False"
    "uuid alice = Key ''uuid-a''" "banned alice = False"
    by (simp_all add: alice_def bob_def new_user_def)
  have expected: "spec_tokens [(''bob'', bob), (''alice'', alice)] = [''uuid-a'']"
    by (simp add: records)
  have raised: "client_list vmess_client [(''bob'', bob), (''alice'', alice)] = Inl KeyError"
    by (simp add: records)
  have h1: "\<not> tokens_ok [(''bob'', bob), (''alice'', alice)]"
    by (simp add: tokens_ok_def records)
  have h2: "xray_file bob_then_alice
              = Content \<lparr>inbounds = [vmess_inbound []], outbounds = [''freedom'']\<rparr>"
    by (simp add: bob_then_alice_eq)
  have h3: "list_ex (\<lambda>ib. is_proxy (protocol ib))
              (inbounds \<lparr>inbounds = [vmess_inbound []], outbounds = [''freedom'']\<rparr>)"
    by (simp add: vmess_inbound_def is_proxy_def)
  have listed: "artifact_clients bob_then_alice = [(''vmess'', [])]"
    by (simp add: bob_then_alice_eq artifact_clients_def vmess_inbound_def)
  from tokenless_user_blocks_generation [OF h1 h2 h3]
    calls store records expected raised h1 h2 h3 listed
  show ?thesis by simp
qed

section \<open>Ban and unban in the proxy artifact\<close>

text \<open>What \<^verbatim>\<open>ban_user\<close> does for the service \<open>xray\<close> on a user of the store: it saves the
  mapping with that user banned and calls \<^verbatim>\<open>update_xray_users\<close> on it.\<close>

lemma ban_user_xray_steps:
  assumes "load_users w = Inr us" and "has_key u us"
  shows "ban_user now u ''xray'' w =
           (True, snd (update_xray_users (AList.map_entry u (ban_record now) us)
                         (save_users (AList.map_entry u (ban_record now) us) w)))"
  using assms by (simp add: ban_user_def Let_def)

text \<open>C4, as the code has it. Let \<open>u\<close> be a user of the store with token \<open>t\<close>, a
  token that no other user who is not banned carries. If the artifact update
  that \<^verbatim>\<open>ban_user(u, "xray")\<close> makes succeeds, then both calls return \<^verbatim>\<open>True\<close>, after
  the ban no VMess, VLESS or Trojan client list of the artifact holds \<open>t\<close>, and
  after the following \<^verbatim>\<open>unban_user(u, "xray")\<close> every such list holds \<open>t\<close> again.\<close>

theorem ban_then_unban_artifact:
  assumes store: "load_users w = Inr us" "distinct (map fst us)"
    and user: "map_of us u = Some r" "uuid r = Key t"
    and unique: "list_all (\<lambda>(n, r'). n = u \<or> banned r' \<or> uuid r' \<noteq> Key t) us"
    and applied: "fst (update_xray_users (AList.map_entry u (ban_record now) us)
                        (save_users (AList.map_entry u (ban_record now) us) w))"
    and w1: "w1 = snd (ban_user now u ''xray'' w)"
    and w2: "w2 = snd (unban_user u ''xray'' w1)"
  shows "fst (ban_user now u ''xray'' w) \<and> fst (unban_user u ''xray'' w1) \<and>
     (\<exists>c1 c2. xray_file w1 = Content c1 \<and> xray_file w2 = Content c2 \<and>
        (\<forall>ib \<in> set (inbounds c1). is_proxy (protocol ib) \<longrightarrow> t \<notin> set (client_tokens ib)) \<and>
        (\<forall>ib \<in> set (inbounds c2). is_proxy (protocol ib) \<longrightarrow> t \<in> set (client_tokens ib)))"
proof -
  define fb where "fb = (\<lambda>(n, r). if n = u then (n, ban_record now r) else (n, r))"
  define fu where "fu = (\<lambda>(n, r). if n = u then (n, unban_record r) else (n, r))"
  define us1 where "us1 = AList.map_entry u (ban_record now) us"
  define us2 where "us2 = AList.map_entry u unban_record us1"
  have us1: "us1 = map fb us"
    unfolding us1_def fb_def using store(2) by (rule map_entry_distinct)
  have d1: "distinct (map fst us1)"
    unfolding us1_def using store(2) by (rule distinct_map_entry)
  have us2: "us2 = map fu us1"
    unfolding us2_def fu_def using d1 by (rule map_entry_distinct)
  have key: "has_key u us" using user(1) by (simp add: has_key_map_of)
  have key1: "has_key u us1"
    using key by (simp add: has_key_def us1_def dom_map_entry)
  have mem: "(u, r) \<in> set us" using user(1) by (rule map_of_SomeD)
  \<comment> \<open>the apply of the ban\<close>
  from applied obtain c ibs1 where c: "xray_file w = Content c"
    and ibs1: "update_inbounds us1 (inbounds c) = Inr ibs1"
    by (auto simp: update_xray_users_success save_users_eq us1_def)
  have ban: "ban_user now u ''xray'' w =
      (True, run [''systemctl'', ''restart'', ''xray'']
               (w\<lparr>users_file := Content us1, xray_file := Content (c\<lparr>inbounds := ibs1\<rparr>)\<rparr>))"
    using store(1) key c ibs1
    by (simp add: ban_user_def save_users_eq us1_def [symmetric] update_xray_users_result)
  have w1_users: "load_users w1 = Inr us1"
    and w1_xray: "xray_file w1 = Content (c\<lparr>inbounds := ibs1\<rparr>)"
    by (simp_all add: w1 ban run_def load_users_def)
  \<comment> \<open>no banned token\<close>
  have not_in: "t \<notin> set (spec_tokens us1)"
  proof
    assume "t \<in> set (spec_tokens us1)"
    then obtain n r' where in1: "(n, r') \<in> set us1" and act: "\<not> banned r'" "uuid r' = Key t"
      by (auto simp: set_spec_tokens)
    from in1 obtain n0 r0 where in0: "(n0, r0) \<in> set us" and eq: "(n, r') = fb (n0, r0)"
      by (auto simp: us1)
    show False
    proof (cases "n0 = u")
      case True
      with eq act show False by (simp add: fb_def ban_record_def)
    next
      case False
      with eq have "r' = r0" by (simp add: fb_def)
      with act in0 False unique show False
        by (auto simp: list_all_iff)
    qed
  qed
  \<comment> \<open>the apply of the unban\<close>
  have in2: "(u, unban_record (ban_record now r)) \<in> set us2"
  proof -
    have "fu (fb (u, r)) \<in> set us2" using mem by (simp add: us2 us1)
    then show ?thesis by (simp add: fu_def fb_def)
  qed
  have is_in: "t \<in> set (spec_tokens us2)"
  proof -
    have "\<not> banned (unban_record (ban_record now r))"
      and "uuid (unban_record (ban_record now r)) = Key t"
      using user(2) by (simp_all add: unban_record_def ban_record_def)
    with in2 show ?thesis unfolding set_spec_tokens by blast
  qed
  have ok2: "tokens_ok us2" if ok1: "tokens_ok us1"
    unfolding tokens_ok_def list_all_iff
  proof
    fix p assume "p \<in> set us2"
    then obtain n1 r1 where in1: "(n1, r1) \<in> set us1" and p: "p = fu (n1, r1)"
      by (auto simp: us2)
    from ok1 in1 have r1: "banned r1 \<or> uuid r1 \<noteq> NoKey"
      by (auto simp: tokens_ok_def list_all_iff)
    show "case p of (n, r) \<Rightarrow> banned r \<or> uuid r \<noteq> NoKey"
    proof (cases "n1 = u")
      case True
      from in1 obtain n0 r0 where in0: "(n0, r0) \<in> set us" and eq: "(n1, r1) = fb (n0, r0)"
        by (auto simp: us1)
      from eq True have n0: "n0 = u" by (auto simp: fb_def split: if_splits)
      with in0 store(2) user(1) have "r0 = r" by simp
      with eq n0 user(2) have u1: "uuid r1 = Key t"
        by (simp add: fb_def ban_record_def)
      show ?thesis
        using p True u1 by (simp add: fu_def unban_record_def)
    next
      case False
      with p r1 show ?thesis by (simp add: fu_def)
    qed
  qed
  have "\<exists>ibs2. update_inbounds us2 ibs1 = Inr ibs2"
  proof -
    from ibs1 have "tokens_ok us1 \<or> \<not> list_ex (\<lambda>ib. is_proxy (protocol ib)) (inbounds c)"
      using update_inbounds_success [of us1 "inbounds c"] by auto
    moreover have "list_ex (\<lambda>ib. is_proxy (protocol ib)) ibs1
                     = list_ex (\<lambda>ib. is_proxy (protocol ib)) (inbounds c)"
    proof -
      have "list_ex (\<lambda>ib. is_proxy (protocol ib)) ibs1 = list_ex is_proxy (map protocol ibs1)"
        by (simp add: list_ex_iff)
      also have "\<dots> = list_ex is_proxy (map protocol (inbounds c))"
        using update_inbounds_protocols [OF ibs1] by simp
      also have "\<dots> = list_ex (\<lambda>ib. is_proxy (protocol ib)) (inbounds c)"
        by (simp add: list_ex_iff)
      finally show ?thesis .
    qed
    ultimately have "tokens_ok us2 \<or> \<not> list_ex (\<lambda>ib. is_proxy (protocol ib)) ibs1"
      using ok2 by auto
    then show ?thesis by (simp add: update_inbounds_success)
  qed
  then obtain ibs2 where ibs2: "update_inbounds us2 ibs1 = Inr ibs2" ..
  have unban: "unban_user u ''xray'' w1 =
      (True, run [''systemctl'', ''restart'', ''xray'']
               (w1\<lparr>users_file := Content us2, xray_file := Content (c\<lparr>inbounds := ibs2\<rparr>)\<rparr>))"
    using w1_users w1_xray key1 ibs2
    by (simp add: unban_user_def save_users_eq us2_def [symmetric] update_xray_users_result)
  have w2_xray: "xray_file w2 = Content (c\<lparr>inbounds := ibs2\<rparr>)"
    by (simp add: w2 unban run_def)
  have gone: "\<forall>ib \<in> set ibs1. is_proxy (protocol ib) \<longrightarrow> t \<notin> set (client_tokens ib)"
    using update_inbounds_tokens [OF ibs1] not_in by auto
  have again: "\<forall>ib \<in> set ibs2. is_proxy (protocol ib) \<longrightarrow> t \<in> set (client_tokens ib)"
    using update_inbounds_tokens [OF ibs2] is_in by auto
  show ?thesis
    using ban unban w1_xray w2_xray gone again by simp
qed

text \<open>C4 at a concrete store: \<open>alice\<close> alone, banned at \<open>t2\<close> and unbanned.\<close>

theorem ban_then_unban_artifact_witness:
  "load_users alice_only = Inr [(''alice'', alice)]
   \<and> distinct (map fst [(''alice'', alice)])
   \<and> map_of [(''alice'', alice)] ''alice'' = Some alice
   \<and> uuid alice = Key ''uuid-a''
   \<and> list_all (\<lambda>(n, r'). n = ''alice'' \<or> banned r' \<or> uuid r' \<noteq> Key ''uuid-a'')
        [(''alice'', alice)]
   \<and> fst (update_xray_users (AList.map_entry ''alice'' (ban_record ''t2'') [(''alice'', alice)])
          (save_users (AList.map_entry ''alice'' (ban_record ''t2'') [(''alice'', alice)])
             alice_only))
   \<and> fst (ban_user ''t2'' ''alice'' ''xray'' alice_only)
   \<and> fst (unban_user ''alice'' ''xray'' (snd (ban_user ''t2'' ''alice'' ''xray'' alice_only)))
   \<and> (\<exists>c1 c2.
        xray_file (snd (ban_user ''t2'' ''alice'' ''xray'' alice_only)) = Content c1
        \<and> xray_file (snd (unban_user ''alice'' ''xray''
                           (snd (ban_user ''t2'' ''alice'' ''xray'' alice_only)))) = Content c2
        \<and> (\<forall>ib \<in> set (inbounds c1).
              is_proxy (protocol ib) \<longrightarrow> ''uuid-a'' \<notin> set (client_tokens ib))
        \<and> (\<forall>ib \<in> set (inbounds c2).
              is_proxy (protocol ib) \<longrightarrow> ''uuid-a'' \<in> set (client_tokens ib)))
   \<and> artifact_clients (snd (ban_user ''t2'' ''alice'' ''xray'' alice_only)) = [(''vmess'', [])]
   \<and> artifact_clients (snd (unban_user ''alice'' ''xray''
                              (snd (ban_user ''t2'' ''alice'' ''xray'' alice_only))))
       = [(''vmess'', [vmess_client ''uuid-a''])]"
proof -
  have l: "load_users alice_only = Inr [(''alice'', alice)]"
    by (simp add: alice_only_eq load_users_def)
  have d: "distinct (map fst [(''alice'', alice)])"
    by simp
  have m: "map_of [(''alice'', alice)] ''alice'' = Some alice"
    by simp
  have t: "uuid alice = Key ''uuid-a''"
    by (simp add: alice_def new_user_def)
  have q: "list_all (\<lambda>(n, r'). n = ''alice'' \<or> banned r' \<or> uuid r' \<noteq> Key ''uuid-a'')
             [(''alice'', alice)]"
    by simp
  have a: "fst (update_xray_users
                 (AList.map_entry ''alice'' (ban_record ''t2'') [(''alice'', alice)])
                 (save_users (AList.map_entry ''alice'' (ban_record ''t2'') [(''alice'', alice)])
                    alice_only))"
    by (simp add: alice_only_eq vmess_inbound_def eval_defs)
  have banned_list:
    "artifact_clients (snd (ban_user ''t2'' ''alice'' ''xray'' alice_only)) = [(''vmess'', [])]"
    by (simp add: alice_only_eq vmess_inbound_def eval_defs)
  have unbanned_list:
    "artifact_clients (snd (unban_user ''alice'' ''xray''
                              (snd (ban_user ''t2'' ''alice'' ''xray'' alice_only))))
       = [(''vmess'', [vmess_client ''uuid-a''])]"
    by (simp add: alice_only_eq vmess_inbound_def eval_defs)
  from ban_then_unban_artifact [OF l d m t q a refl refl] l d m t q a banned_list unbanned_list
  show ?thesis by simp
qed

text \<open>C4 fails as stated. The store holds the proxy user \<open>alice\<close> and the shell user
  \<open>bob\<close>, and the artifact lists the token of \<open>alice\<close>. \<^verbatim>\<open>ban_user\<close> marks her banned and
  returns \<^verbatim>\<open>True\<close>, but its artifact update failed, and the client list still holds
  her token.\<close>

theorem ban_leaves_token_in_artifact:
  "lookup_user ''alice'' alice_then_bob = Inr (Some alice)
   \<and> uuid alice = Key ''uuid-a''
   \<and> fst (ban_user ''t3'' ''alice'' ''xray'' alice_then_bob) = True
   \<and> lookup_user ''alice'' (snd (ban_user ''t3'' ''alice'' ''xray'' alice_then_bob))
       = Inr (Some (alice\<lparr>banned := True, banned_at := Key (Some ''t3'')\<rparr>))
   \<and> artifact_clients (snd (ban_user ''t3'' ''alice'' ''xray'' alice_then_bob))
       = [(''vmess'', [[(''id'', JStr ''uuid-a''), (''alterId'', JInt 0)]])]
   \<and> map client_tokens
        (case xray_file (snd (ban_user ''t3'' ''alice'' ''xray'' alice_then_bob)) of
           Content c \<Rightarrow> inbounds c | _ \<Rightarrow> [])
       = [[''uuid-a'']]"
  by (simp add: alice_then_bob_eq vmess_inbound_def client_tokens_def eval_defs)

section \<open>Which records carry a token\<close>

text \<open>C7, on the code. \<^verbatim>\<open>change_uuid\<close> succeeds on every user of the store and
  writes the new token into his record, whatever the record held before: a record
  without a token, as \<^verbatim>\<open>add_user\<close> creates it for every service other than \<open>xray\<close>,
  carries one afterwards.\<close>

theorem change_uuid_attaches_token:
  assumes "load_users w = Inr us" and "map_of us username = Some r"
  shows "fst (change_uuid new_uuid username w)
     \<and> lookup_user username (snd (change_uuid new_uuid username w))
         = Inr (Some (r\<lparr>uuid := Key new_uuid\<rparr>))"
proof -
  from assms(2) have key: "has_key username us"
    by (simp add: has_key_map_of)
  have "users_file (snd (change_uuid new_uuid username w))
          = Content (AList.map_entry username (\<lambda>r. r\<lparr>uuid := Key new_uuid\<rparr>) us)"
    using assms(1) key
    by (simp add: change_uuid_def Let_def save_users_eq update_xray_users_keeps_store)
  then have "lookup_user username (snd (change_uuid new_uuid username w))
               = Inr (Some (r\<lparr>uuid := Key new_uuid\<rparr>))"
    using assms(2) by (simp add: lookup_user_def load_users_def map_of_map_entry)
  moreover have "fst (change_uuid new_uuid username w)"
    using assms(1) key by (simp add: change_uuid_def Let_def)
  ultimately show ?thesis by simp
qed

text \<open>C7 at the failing input. \<open>bob\<close> is created for the service \<open>ssh\<close> and his record
  has no token. \<^verbatim>\<open>change_uuid\<close> succeeds on him, attaches the token \<open>uuid-c\<close> to his
  record and lists it among the VMess clients of the artifact.\<close>

theorem change_uuid_on_shell_user:
  "fst (add_user ''t2'' ''uuid-b'' ''t2'' ''bob'' ''pw2'' ''ssh'' None configured) = True
   \<and> load_users bob_only = Inr [(''bob'', bob)]
   \<and> map_of [(''bob'', bob)] ''bob'' = Some bob
   \<and> uuid bob = NoKey
   \<and> fst (change_uuid ''uuid-c'' ''bob'' bob_only)
   \<and> lookup_user ''bob'' (snd (change_uuid ''uuid-c'' ''bob'' bob_only))
       = Inr (Some (bob\<lparr>uuid := Key ''uuid-c''\<rparr>))
   \<and> artifact_clients (snd (change_uuid ''uuid-c'' ''bob'' bob_only))
       = [(''vmess'', [[(''id'', JStr ''uuid-c''), (''alterId'', JInt 0)]])]"
proof -
  have created:
    "fst (add_user ''t2'' ''uuid-b'' ''t2'' ''bob'' ''pw2'' ''ssh'' None configured) = True"
    by (simp add: configured_eq vmess_inbound_def eval_defs)
  have l: "load_users bob_only = Inr [(''bob'', bob)]"
    by (simp add: bob_only_eq load_users_def)
  have m: "map_of [(''bob'', bob)] ''bob'' = Some bob"
    by simp
  have none: "uuid bob = NoKey"
    by (simp add: bob_def new_user_def)
  have listed: "artifact_clients (snd (change_uuid ''uuid-c'' ''bob'' bob_only))
       = [(''vmess'', [[(''id'', JStr ''uuid-c''), (''alterId'', JInt 0)]])]"
    by (simp add: bob_only_eq vmess_inbound_def eval_defs)
  from change_uuid_attaches_token [OF l m, of "''uuid-c''"] created l m none listed
  show ?thesis by simp
qed

end
